theory Spec2Isabelle
  imports Complex_Main "HOL-Library.Word"
begin

unbundle bit_operations_syntax

section \<open>The record writer of pyxlsb (\<^verbatim>\<open>src/pyxlsb/writer.py\<close>)\<close>

text \<open>
  A shallow embedding of \<^verbatim>\<open>RecordWriter\<close>, \<^verbatim>\<open>SemiflexibleHandlers\<close> and
  \<^verbatim>\<open>BIFF12Writer\<close>, under the semantics of Python 3. Python integers are \<^typ>\<open>int\<close>; \<^verbatim>\<open>>>\<close> and \<^verbatim>\<open>&\<close> on them are
  \<^const>\<open>drop_bit\<close> and \<open>AND\<close> on \<^typ>\<open>int\<close>, which agree with Python on negative numbers
  too. A \<^verbatim>\<open>bytes\<close> object is a list of 8-bit words. Every exception the code can raise
  is a value of \<open>error\<close>, and a method that writes returns \<open>error + sink\<close>.
\<close>

subsection \<open>Values, errors and the byte sink\<close>

type_synonym byte = "8 word"

text \<open>A Python \<^verbatim>\<open>str\<close> is its sequence of code points.\<close>

type_synonym pystr = "nat list"

text \<open>
  The objects the writer's methods receive. \<open>PObj t\<close> is any object of another class
  (a float, \<^verbatim>\<open>None\<close>, a user class): it has no \<^verbatim>\<open>encode\<close> attribute, is not an
  \<^verbatim>\<open>int\<close>, cannot be packed as an integer, and \<^verbatim>\<open>str()\<close> returns \<open>t\<close> for it.
\<close>

datatype pyval =
    PInt int
  | PBool bool
  | PStr pystr
  | PBytes "byte list"
  | PObj pystr

datatype error =
    SinkFailure
  | StructError
  | NameError
  | AttributeError
  | AssertionError
  | TypeError

text \<open>
  The file object \<^verbatim>\<open>_fp\<close>. The methods modelled here only call \<^verbatim>\<open>_fp.write\<close>, so
  the sink is the log of the \<^verbatim>\<open>write\<close> calls it accepted, one chunk per call (the
  stream is their concatenation), and \<open>room\<close>, the number of bytes it will still
  accept: \<open>None\<close> is a sink that never fails; a write that does not fit raises.
\<close>

record sink =
  chunks :: "byte list list"
  room :: "nat option"

definition fp_write :: "sink \<Rightarrow> byte list \<Rightarrow> error + sink" where
  "fp_write fp data =
     (case room fp of
        None \<Rightarrow> Inr (fp\<lparr>chunks := chunks fp @ [data]\<rparr>)
      | Some r \<Rightarrow>
          if length data \<le> r
          then Inr (fp\<lparr>chunks := chunks fp @ [data], room := Some (r - length data)\<rparr>)
          else Inl SinkFailure)"

text \<open>\<^verbatim>\<open>RecordWriter.write\<close> (\<open>write\<close> is a reserved word here).\<close>

definition RecordWriter_write :: "sink \<Rightarrow> byte list \<Rightarrow> error + sink" where
  "RecordWriter_write fp data = fp_write fp data"

subsection \<open>The struct packers imported from \<^verbatim>\<open>reader\<close>\<close>

text \<open>
  \<^verbatim>\<open>isinstance(obj, int)\<close>: \<^verbatim>\<open>bool\<close> is a subclass of \<^verbatim>\<open>int\<close>.
\<close>

fun isinstance_int :: "pyval \<Rightarrow> bool" where
  "isinstance_int (PInt n) = True"
| "isinstance_int (PBool b) = True"
| "isinstance_int v = False"

text \<open>The integer a value packs as: \<^verbatim>\<open>True\<close> is 1 and \<^verbatim>\<open>False\<close> is 0.\<close>

fun as_index :: "pyval \<Rightarrow> int option" where
  "as_index (PInt n) = Some n"
| "as_index (PBool b) = Some (if b then 1 else 0)"
| "as_index v = None"

definition le_bytes :: "nat \<Rightarrow> int \<Rightarrow> byte list" where
  "le_bytes n v = map (\<lambda>i. word_of_int (drop_bit (8 * i) v)) [0..<n]"

text \<open>
  Modelled from the spec: \<^verbatim>\<open>uint8_t\<close>, \<^verbatim>\<open>uint16_t\<close> and \<^verbatim>\<open>uint32_t\<close> are declared in
  \<^verbatim>\<open>reader.py\<close>, which is not among the sources. The spec's primitive codec packs
  8/16/32-bit integers in a fixed little-endian width; they are taken to be Python's
  \<^verbatim>\<open>struct.Struct('<B')\<close>, \<^verbatim>\<open>'<H'\<close> and \<^verbatim>\<open>'<I'\<close>, whose \<^verbatim>\<open>pack\<close> raises
  \<^verbatim>\<open>struct.error\<close> for an argument that is not an integer or is out of range.
\<close>

definition struct_pack :: "nat \<Rightarrow> pyval \<Rightarrow> error + byte list" where
  "struct_pack n val =
     (case as_index val of
        None \<Rightarrow> Inl StructError
      | Some v \<Rightarrow> if 0 \<le> v \<and> v < 2 ^ (8 * n) then Inr (le_bytes n v) else Inl StructError)"

definition uint8_t_pack :: "pyval \<Rightarrow> error + byte list" where
  "uint8_t_pack = struct_pack 1"

definition uint16_t_pack :: "pyval \<Rightarrow> error + byte list" where
  "uint16_t_pack = struct_pack 2"

definition uint32_t_pack :: "pyval \<Rightarrow> error + byte list" where
  "uint32_t_pack = struct_pack 4"

subsection \<open>\<^verbatim>\<open>RecordWriter.write_len\<close>\<close>

text \<open>
  The loop \<^verbatim>\<open>for i in range(4)\<close> is a recursion over the list of the indices left;
  \<^verbatim>\<open>break\<close> returns without visiting them.
\<close>

fun write_len_loop :: "nat list \<Rightarrow> int \<Rightarrow> sink \<Rightarrow> error + sink" where
  "write_len_loop [] val fp = Inr fp"
| "write_len_loop (i # rest) val fp =
     (let nearlybyte = (drop_bit (7 * i) val) AND 0x7F in
      case uint8_t_pack (PInt nearlybyte) of
        Inl e \<Rightarrow> Inl e
      | Inr payload \<Rightarrow>
          (case fp_write fp payload of
             Inl e \<Rightarrow> Inl e
           | Inr fp' \<Rightarrow>
               if nearlybyte AND 0x80 = 0 then Inr fp'
               else write_len_loop rest val fp'))"

definition write_len :: "int \<Rightarrow> sink \<Rightarrow> error + sink" where
  "write_len val fp = write_len_loop [0..<4] val fp"

subsection \<open>The fixed-width writers\<close>

text \<open>
  \<^verbatim>\<open>write_int\<close>, \<^verbatim>\<open>write_short\<close> and \<^verbatim>\<open>write_byte\<close> share one body, which differs in
  the packer only.
\<close>

definition write_packed ::
    "(pyval \<Rightarrow> error + byte list) \<Rightarrow> pyval \<Rightarrow> bool \<Rightarrow> sink \<Rightarrow> error + sink" where
  "write_packed pack val do_write_len fp =
     (case pack val of
        Inl e \<Rightarrow> Inl e
      | Inr payload \<Rightarrow>
          if do_write_len
          then (case write_len (int (length payload)) fp of
                  Inl e \<Rightarrow> Inl e
                | Inr fp' \<Rightarrow> fp_write fp' payload)
          else fp_write fp payload)"

definition write_int :: "pyval \<Rightarrow> bool \<Rightarrow> sink \<Rightarrow> error + sink" where
  "write_int val do_write_len fp = write_packed uint32_t_pack val do_write_len fp"

definition write_short :: "pyval \<Rightarrow> bool \<Rightarrow> sink \<Rightarrow> error + sink" where
  "write_short val do_write_len fp = write_packed uint16_t_pack val do_write_len fp"

definition write_byte :: "pyval \<Rightarrow> bool \<Rightarrow> sink \<Rightarrow> error + sink" where
  "write_byte val do_write_len fp = write_packed uint8_t_pack val do_write_len fp"

text \<open>
  \<^verbatim>\<open>write_double\<close> has the same body with \<^verbatim>\<open>double_t.pack\<close>. The IEEE-754 encoding of
  a float is not modelled: the packer is a parameter.
\<close>

definition write_double ::
    "(pyval \<Rightarrow> error + byte list) \<Rightarrow> pyval \<Rightarrow> bool \<Rightarrow> sink \<Rightarrow> error + sink" where
  "write_double double_t_pack val do_write_len fp =
     write_packed double_t_pack val do_write_len fp"

text \<open>
  \<^verbatim>\<open>write_float\<close> starts with \<^verbatim>\<open>struct.Struct('<f').pack(val)\<close>, so it first looks the
  name \<^verbatim>\<open>struct\<close> up. The names bound at module level in \<^verbatim>\<open>writer.py\<close> are those of
  its import statements (lines 17 to 23) and its three classes; a name that is neither
  there nor a builtin (those the module uses are listed) raises \<^verbatim>\<open>NameError\<close>.
\<close>

definition module_globals :: "string list" where
  "module_globals =
     [''biff12'', ''uint8_t'', ''uint16_t'', ''int32_t'', ''uint32_t'', ''double_t'',
      ''BIFF12Reader'', ''os'', ''np'',
      ''RecordWriter'', ''SemiflexibleHandlers'', ''BIFF12Writer'']"

definition builtin_names :: "string list" where
  "builtin_names =
     [''object'', ''dict'', ''int'', ''float'', ''bool'', ''str'', ''bytes'', ''len'',
      ''range'', ''isinstance'', ''ImportError'', ''AttributeError'', ''AssertionError'',
      ''NotImplemented'', ''StopIteration'']"

definition load_global :: "string \<Rightarrow> error + unit" where
  "load_global name =
     (if name \<in> set module_globals \<or> name \<in> set builtin_names
      then Inr () else Inl NameError)"

definition write_float ::
    "(pyval \<Rightarrow> error + byte list) \<Rightarrow> pyval \<Rightarrow> bool \<Rightarrow> sink \<Rightarrow> error + sink" where
  "write_float float_pack val do_write_len fp =
     (case load_global ''struct'' of
        Inl e \<Rightarrow> Inl e
      | Inr u \<Rightarrow> write_packed float_pack val do_write_len fp)"

subsection \<open>\<^verbatim>\<open>BIFF12Writer.write_id\<close>\<close>

fun write_id_loop :: "nat list \<Rightarrow> int \<Rightarrow> sink \<Rightarrow> error + sink" where
  "write_id_loop [] val fp = Inr fp"
| "write_id_loop (i # rest) val fp =
     (let byte = (drop_bit (8 * i) val) AND 0xFF in
      case uint8_t_pack (PInt byte) of
        Inl e \<Rightarrow> Inl e
      | Inr payload \<Rightarrow>
          (case RecordWriter_write fp payload of
             Inl e \<Rightarrow> Inl e
           | Inr fp' \<Rightarrow>
               if byte AND 0x80 = 0 then Inr fp'
               else write_id_loop rest val fp'))"

definition write_id :: "int \<Rightarrow> sink \<Rightarrow> error + sink" where
  "write_id val fp = write_id_loop [0..<4] val fp"

subsection \<open>The text codec: \<^verbatim>\<open>RecordWriter.write_string\<close> and \<^verbatim>\<open>write_obj_str\<close>\<close>

text \<open>
  \<^verbatim>\<open>str.encode('utf-16', errors='replace')\<close>, Python's built-in codec, on a
  little-endian host: the byte-order mark \<^verbatim>\<open>ff fe\<close>, then every code point as one
  little-endian 16-bit unit, or as a surrogate pair from \<^verbatim>\<open>U+10000\<close> on; a lone
  surrogate cannot be encoded and is replaced by \<^verbatim>\<open>?\<close>. The writer's \<^verbatim>\<open>_enc\<close> is
  its default \<^verbatim>\<open>'utf-16'\<close>, as \<^verbatim>\<open>BIFF12Writer\<close> constructs it.
\<close>

definition utf16_unit :: "nat \<Rightarrow> byte list" where
  "utf16_unit u = [of_nat (u mod 256), of_nat (u div 256)]"

definition encode_cp :: "nat \<Rightarrow> byte list" where
  "encode_cp c =
     (if 0xD800 \<le> c \<and> c < 0xE000 then utf16_unit 0x3F
      else if c < 0x10000 then utf16_unit c
      else utf16_unit (0xD800 + (c - 0x10000) div 0x400)
         @ utf16_unit (0xDC00 + (c - 0x10000) mod 0x400))"

definition utf16le :: "pystr \<Rightarrow> byte list" where
  "utf16le s = concat (map encode_cp s)"

definition BOM :: "byte list" where
  "BOM = [0xFF, 0xFE]"

definition utf_16_encode :: "pystr \<Rightarrow> byte list" where
  "utf_16_encode s = BOM @ utf16le s"

text \<open>
  \<^verbatim>\<open>str_data.encode\<close>: only a \<^verbatim>\<open>str\<close> has the attribute.
\<close>

fun encode :: "pyval \<Rightarrow> error + byte list" where
  "encode (PStr s) = Inr (utf_16_encode s)"
| "encode v = Inl AttributeError"

text \<open>
  \<^verbatim>\<open>bytes.lstrip(chars)\<close> removes the leading bytes that occur in \<open>chars\<close>, in any
  order and number.
\<close>

definition lstrip :: "byte list \<Rightarrow> byte list \<Rightarrow> byte list" where
  "lstrip chars data = dropWhile (\<lambda>b. b \<in> set chars) data"

text \<open>
  The \<^verbatim>\<open>try\<close> block is evaluated first; its \<^verbatim>\<open>AttributeError\<close> runs the handler.
  The only step that raises it is \<^verbatim>\<open>encode\<close>, before anything is written, so the
  handler starts from the sink as it was.
\<close>

definition write_string :: "pyval \<Rightarrow> sink \<Rightarrow> error + sink" where
  "write_string str_data fp =
     (let attempt =
        (case encode str_data of
           Inl e \<Rightarrow> Inl e
         | Inr encoded \<Rightarrow>
             (let data = lstrip [0xFF, 0xFE] encoded;
                  size = int (length data) div 2
              in case write_int (PInt size) False fp of
                   Inl e \<Rightarrow> Inl e
                 | Inr fp' \<Rightarrow> fp_write fp' data))
      in case attempt of
           Inl AttributeError \<Rightarrow> write_int str_data False fp
         | r \<Rightarrow> r)"

text \<open>
  \<^verbatim>\<open>str(obj)\<close>: a string is itself, an integer its decimal digits, a \<^verbatim>\<open>bytes\<close>
  object its literal (\<^verbatim>\<open>b'...'\<close> with escapes), another object what its class says.
\<close>

fun decimal :: "nat \<Rightarrow> pystr" where
  "decimal n = (if n < 10 then [48 + n] else decimal (n div 10) @ [48 + n mod 10])"

definition hex_digit :: "nat \<Rightarrow> nat" where
  "hex_digit d = (if d < 10 then 48 + d else 87 + d)"

definition repr_byte :: "nat \<Rightarrow> byte \<Rightarrow> pystr" where
  "repr_byte quote b =
     (let c = unat b in
      if c = quote \<or> c = 92 then [92, c]
      else if c = 9 then [92, 116]
      else if c = 10 then [92, 110]
      else if c = 13 then [92, 114]
      else if c < 32 \<or> 127 \<le> c then [92, 120, hex_digit (c div 16), hex_digit (c mod 16)]
      else [c])"

definition bytes_repr :: "byte list \<Rightarrow> pystr" where
  "bytes_repr bs =
     (let quote = (if 39 \<in> set bs \<and> 34 \<notin> set bs then 34 else 39)
      in [98, quote] @ concat (map (repr_byte quote) bs) @ [quote])"

fun str :: "pyval \<Rightarrow> pystr" where
  "str (PStr s) = s"
| "str (PInt n) = (if n < 0 then 45 # decimal (nat (- n)) else decimal (nat n))"
| "str (PBool b) = (if b then [84, 114, 117, 101] else [70, 97, 108, 115, 101])"
| "str (PBytes bs) = bytes_repr bs"
| "str (PObj t) = t"

definition write_obj_str :: "pyval \<Rightarrow> sink \<Rightarrow> error + sink" where
  "write_obj_str obj fp =
     (let attempt =
        (if isinstance_int obj then Inl AssertionError
         else write_string (PStr (str obj)) fp)
      in case attempt of
           Inl AssertionError \<Rightarrow> write_int obj False fp
         | r \<Rightarrow> r)"

subsection \<open>\<^verbatim>\<open>BIFF12Writer.write_string\<close> and \<^verbatim>\<open>write_bytes\<close>\<close>

definition BIFF12Writer_write_string :: "pyval \<Rightarrow> sink \<Rightarrow> error + sink" where
  "BIFF12Writer_write_string str_data fp = write_string str_data fp"

definition write_bytes :: "pyval \<Rightarrow> sink \<Rightarrow> error + sink" where
  "write_bytes bytes_data fp =
     (case bytes_data of
        PBytes bs \<Rightarrow>
          (case write_len (int (length bs)) fp of
             Inl e \<Rightarrow> Inl e
           | Inr fp' \<Rightarrow>
               if length bs \<noteq> 0 then RecordWriter_write fp' bs else Inr fp')
      | _ \<Rightarrow> Inl AssertionError)"

subsection \<open>The dispatch table \<^verbatim>\<open>SemiflexibleHandlers\<close>\<close>

text \<open>
  The record tags \<^verbatim>\<open>biff12.FLOAT\<close>, \<^verbatim>\<open>NUM\<close>, \<^verbatim>\<open>BOOL\<close> and \<^verbatim>\<open>STRING\<close> are constants
  of the module \<^verbatim>\<open>biff12\<close>, which is not among the sources: they are kept symbolic.
  An encoder is one of the methods of \<^verbatim>\<open>RecordWriter\<close>, by name.
\<close>

datatype biff12_tag = FLOAT | NUM | BOOL | STRING

datatype encoder =
    Write_double
  | Write_int
  | Write_short
  | Write_byte
  | Write_float
  | Write_string
  | Write_obj_str

type_synonym entry = "biff12_tag \<times> encoder"

text \<open>
  A \<^verbatim>\<open>dict\<close> finds a key by its hash and \<^verbatim>\<open>==\<close>. What a key is found as is its
  \<open>identity\<close>: a class or type object, a numpy dtype, a number (\<^verbatim>\<open>5\<close>, \<^verbatim>\<open>5.0\<close>,
  \<^verbatim>\<open>Decimal(5)\<close> and \<^verbatim>\<open>Fraction(5)\<close> are one key, as are \<^verbatim>\<open>True\<close> and \<^verbatim>\<open>1\<close>), a
  text, or any other object by a name of its own. Two keys with one identity are one
  key of the table.
\<close>

datatype identity =
    Class string
  | Dtype string
  | Number rat
  | Text pystr
  | Object string

text \<open>
  A key is any object. The table and \<^verbatim>\<open>__missing__\<close> observe this much of it: its
  identity, or that it cannot be hashed (\<open>None\<close>: a list, a dict, a set, a
  bytearray, for which a lookup raises \<^verbatim>\<open>TypeError\<close>), and the results of the four
  tests \<^verbatim>\<open>isinstance(key, int)\<close>, \<^verbatim>\<open>float\<close>, \<^verbatim>\<open>bool\<close> and \<^verbatim>\<open>str\<close>.
\<close>

record pykey =
  hash_eq :: "identity option"
  is_int :: bool
  is_float :: bool
  is_bool :: bool
  is_str :: bool

text \<open>A class or type object: it is an instance of \<^verbatim>\<open>type\<close>, of none of the four.\<close>

definition type_object :: "string \<Rightarrow> pykey" where
  "type_object name =
     \<lparr>hash_eq = Some (Class name),
      is_int = False, is_float = False, is_bool = False, is_str = False\<rparr>"

definition int_type :: pykey where
  "int_type = type_object ''int''"

definition float_type :: pykey where
  "float_type = type_object ''float''"

definition bool_type :: pykey where
  "bool_type = type_object ''bool''"

definition str_type :: pykey where
  "str_type = type_object ''str''"

text \<open>The instances of the four base categories; \<^verbatim>\<open>bool\<close> is a subclass of \<^verbatim>\<open>int\<close>.\<close>

definition int_inst :: "int \<Rightarrow> pykey" where
  "int_inst n =
     \<lparr>hash_eq = Some (Number (of_int n)),
      is_int = True, is_float = False, is_bool = False, is_str = False\<rparr>"

definition bool_inst :: "bool \<Rightarrow> pykey" where
  "bool_inst b =
     \<lparr>hash_eq = Some (Number (if b then 1 else 0)),
      is_int = True, is_float = False, is_bool = True, is_str = False\<rparr>"

text \<open>A finite float, by its exact value.\<close>

definition float_inst :: "rat \<Rightarrow> pykey" where
  "float_inst x =
     \<lparr>hash_eq = Some (Number x),
      is_int = False, is_float = True, is_bool = False, is_str = False\<rparr>"

definition str_inst :: "pystr \<Rightarrow> pykey" where
  "str_inst s =
     \<lparr>hash_eq = Some (Text s),
      is_int = False, is_float = False, is_bool = False, is_str = True\<rparr>"

text \<open>
  Objects of other classes: one that is hashed and compared as the identity \<open>i\<close>
  (\<^verbatim>\<open>Decimal(5)\<close> is \<open>other_object (Number 5)\<close>, \<^verbatim>\<open>None\<close> is
  \<open>other_object (Object ''None'')\<close>), and one that cannot be hashed.
\<close>

definition other_object :: "identity \<Rightarrow> pykey" where
  "other_object i =
     \<lparr>hash_eq = Some i,
      is_int = False, is_float = False, is_bool = False, is_str = False\<rparr>"

definition unhashable_object :: pykey where
  "unhashable_object =
     \<lparr>hash_eq = None,
      is_int = False, is_float = False, is_bool = False, is_str = False\<rparr>"

type_synonym handlers = "identity \<rightharpoonup> entry"

text \<open>
  \<^verbatim>\<open>__init__\<close> with no further arguments; \<open>np\<close> says whether numpy could be imported.
  The keys are given by their identities: the four type objects, and the dtypes that
  \<^verbatim>\<open>np.dtype('int64')\<close> and the others denote (\<^verbatim>\<open>np.dtype('bool8')\<close> is the dtype
  \<^verbatim>\<open>bool\<close>).
\<close>

definition initial_handlers :: "(identity \<times> entry) list" where
  "initial_handlers =
     [(Class ''int'', (FLOAT, Write_double)),
      (Class ''float'', (FLOAT, Write_double)),
      (Class ''bool'', (BOOL, Write_byte)),
      (Class ''str'', (STRING, Write_string))]"

definition numpy_handlers :: "(identity \<times> entry) list" where
  "numpy_handlers =
     [(Dtype ''int64'', (FLOAT, Write_double)),
      (Dtype ''int32'', (NUM, Write_int)),
      (Dtype ''int16'', (NUM, Write_short)),
      (Dtype ''int8'', (NUM, Write_byte)),
      (Dtype ''float64'', (FLOAT, Write_double)),
      (Dtype ''float32'', (FLOAT, Write_float)),
      (Dtype ''float16'', (FLOAT, Write_float)),
      (Dtype ''bool'', (BOOL, Write_byte)),
      (Dtype ''object'', (STRING, Write_obj_str))]"

definition SemiflexibleHandlers :: "bool \<Rightarrow> handlers" where
  "SemiflexibleHandlers np =
     (if np then map_of initial_handlers ++ map_of numpy_handlers
      else map_of initial_handlers)"

text \<open>Whether one of the four \<^verbatim>\<open>isinstance\<close> tests of \<^verbatim>\<open>__missing__\<close> holds.\<close>

definition key_is_instance :: "pykey \<Rightarrow> bool" where
  "key_is_instance key \<longleftrightarrow> is_int key \<or> is_float key \<or> is_bool key \<or> is_str key"

text \<open>\<^verbatim>\<open>self[key] = value\<close>: storing hashes the key too.\<close>

definition setitem :: "handlers \<Rightarrow> pykey \<Rightarrow> entry \<Rightarrow> error + handlers" where
  "setitem h key v =
     (case hash_eq key of
        None \<Rightarrow> Inl TypeError
      | Some i \<Rightarrow> Inr (h(i \<mapsto> v)))"

text \<open>
  \<^verbatim>\<open>self[key]\<close> hashes the key, which raises \<^verbatim>\<open>TypeError\<close> for an unhashable one;
  then it returns the stored value, or calls \<^verbatim>\<open>__missing__\<close>, which itself
  evaluates \<^verbatim>\<open>self[int]\<close> and the like. Both return the value and the table as it
  is afterwards.
\<close>

function getitem :: "handlers \<Rightarrow> pykey \<Rightarrow> error + entry \<times> handlers"
  and missing :: "handlers \<Rightarrow> pykey \<Rightarrow> error + entry \<times> handlers" where
  "getitem h key =
     (case hash_eq key of
        None \<Rightarrow> Inl TypeError
      | Some i \<Rightarrow>
          (case h i of
             Some v \<Rightarrow> Inr (v, h)
           | None \<Rightarrow> missing h key))"
| "missing h key =
     (if is_int key then
        (case getitem h int_type of
           Inl e \<Rightarrow> Inl e
         | Inr (v, h') \<Rightarrow>
             (case setitem h' key v of Inl e \<Rightarrow> Inl e | Inr h'' \<Rightarrow> Inr (v, h'')))
      else if is_float key then
        (case getitem h float_type of
           Inl e \<Rightarrow> Inl e
         | Inr (v, h') \<Rightarrow>
             (case setitem h' key v of Inl e \<Rightarrow> Inl e | Inr h'' \<Rightarrow> Inr (v, h'')))
      else if is_bool key then
        (case getitem h bool_type of
           Inl e \<Rightarrow> Inl e
         | Inr (v, h') \<Rightarrow>
             (case setitem h' key v of Inl e \<Rightarrow> Inl e | Inr h'' \<Rightarrow> Inr (v, h'')))
      else if is_str key then
        (case getitem h str_type of
           Inl e \<Rightarrow> Inl e
         | Inr (v, h') \<Rightarrow>
             (case setitem h' key v of Inl e \<Rightarrow> Inl e | Inr h'' \<Rightarrow> Inr (v, h'')))
      else
        (let v = (STRING, Write_obj_str)
         in case setitem h key v of Inl e \<Rightarrow> Inl e | Inr h'' \<Rightarrow> Inr (v, h'')))"
  by pat_completeness auto

termination
  by (relation "measure (\<lambda>x. case x of
         Inl (h, key) \<Rightarrow> (if key_is_instance key then 3 else 1)
       | Inr (h, key) \<Rightarrow> (if key_is_instance key then 2 else 0))")
     (auto simp: key_is_instance_def int_type_def float_type_def bool_type_def
        str_type_def type_object_def)

text \<open>
  A series of lookups on one table: the table after them. A lookup that raises
  leaves the table as it was.
\<close>

fun resolve_all :: "handlers \<Rightarrow> pykey list \<Rightarrow> handlers" where
  "resolve_all h [] = h"
| "resolve_all h (k # ks) =
     resolve_all (case getitem h k of Inl e \<Rightarrow> h | Inr (v, h') \<Rightarrow> h') ks"

subsection \<open>The tag codec as the specification words it\<close>

text \<open>
  The specification's tag codec, for comparison with \<^verbatim>\<open>write_id\<close>: emit the low 8
  bits of the remaining value, stop if the emitted byte's high bit is clear, otherwise
  shift right by 8 bits and go on, for at most \<open>n\<close> steps.
\<close>

fun tag_encode :: "nat \<Rightarrow> int \<Rightarrow> byte list" where
  "tag_encode 0 v = []"
| "tag_encode (Suc n) v =
     (let b = v AND 0xFF
      in word_of_int b # (if b AND 0x80 = 0 then [] else tag_encode n (drop_bit 8 v)))"

section \<open>Properties\<close>

subsection \<open>Packing a masked byte, writing to a working sink\<close>

lemma and_7F_80: "(v AND 0x7F) AND 0x80 = (0::int)"
  by (simp add: and.assoc)

lemma pack_byte: "0 \<le> b \<Longrightarrow> b < 256 \<Longrightarrow> uint8_t_pack (PInt b) = Inr [word_of_int b]"
  by (simp add: uint8_t_pack_def struct_pack_def le_bytes_def)

lemma pack_and_7F: "uint8_t_pack (PInt (v AND 0x7F)) = Inr [word_of_int (v AND 0x7F)]"
proof -
  have lo: "0 \<le> v AND 0x7F" by simp
  have "v AND 0x7F \<le> 0x7F" by (rule AND_upper2) simp
  then have hi: "v AND 0x7F < 256" by simp
  show ?thesis by (rule pack_byte [OF lo hi])
qed

lemma pack_and_FF: "uint8_t_pack (PInt (v AND 0xFF)) = Inr [word_of_int (v AND 0xFF)]"
proof -
  have lo: "0 \<le> v AND 0xFF" by simp
  have "v AND 0xFF \<le> 0xFF" by (rule AND_upper2) simp
  then have hi: "v AND 0xFF < 256" by simp
  show ?thesis by (rule pack_byte [OF lo hi])
qed

lemma fp_write_working:
  "room fp = None \<Longrightarrow> fp_write fp data = Inr (fp\<lparr>chunks := chunks fp @ [data]\<rparr>)"
  by (simp add: fp_write_def)

lemma write_len_eq: "write_len val fp = fp_write fp [word_of_int (val AND 0x7F)]"
  by (simp add: write_len_def upt_conv_Cons pack_and_7F and_7F_80 Let_def split: sum.splits)

lemma write_len_working:
  "room fp = None \<Longrightarrow>
   write_len val fp = Inr (fp\<lparr>chunks := chunks fp @ [[word_of_int (val AND 0x7F)]]\<rparr>)"
  by (simp add: write_len_eq fp_write_working)

lemma low7_self: "0 \<le> val \<Longrightarrow> val < 128 \<Longrightarrow> val AND 0x7F = (val::int)"
proof -
  assume a: "0 \<le> val" "val < 128"
  have "val AND 0x7F = take_bit 7 val"
    by (simp add: take_bit_eq_mask mask_eq_exp_minus_1)
  also have "\<dots> = val" using a by (simp add: take_bit_int_eq_self)
  finally show ?thesis .
qed

lemma uint_small_byte: "0 \<le> val \<Longrightarrow> val < 128 \<Longrightarrow> uint (word_of_int val :: byte) = val"
  by (simp add: uint_word_of_int_eq take_bit_int_eq_self)

lemma low7_mod: "val AND 0x7F = (val::int) mod 128"
proof -
  have "val AND 0x7F = take_bit 7 val"
    by (simp add: take_bit_eq_mask mask_eq_exp_minus_1)
  then show ?thesis by (simp add: take_bit_eq_mod)
qed

lemma uint_low7: "uint (word_of_int (val AND 0x7F) :: byte) = val mod 128"
proof -
  have "0 \<le> val mod 128" "val mod 128 < 256"
    by (simp, rule less_trans [of _ 128]) simp_all
  then show ?thesis
    by (simp add: low7_mod uint_word_of_int_eq take_bit_int_eq_self)
qed

subsection \<open>The length codec\<close>

text \<open>
  C1, as the specification states it: a length beyond the representable range makes
  \<^verbatim>\<open>write_len\<close> fail with a LengthOverflow error instead of truncating. The code has
  no such error and no range check. 128 does not fit the one 7-bit group the loop
  ever emits, and \<open>2 ^ 28\<close> does not fit four groups either; both calls return
  normally, having written the byte \<^verbatim>\<open>00\<close>.
\<close>

theorem write_len_truncates_counterexample:
  "write_len 128 \<lparr>chunks = [], room = None\<rparr> = Inr \<lparr>chunks = [[0x00]], room = None\<rparr> \<and>
   write_len 268435456 \<lparr>chunks = [], room = None\<rparr> = Inr \<lparr>chunks = [[0x00]], room = None\<rparr>"
  by (simp add: write_len_eq fp_write_def)

text \<open>
  C1, amended: \<^verbatim>\<open>write_len\<close> has no overflow error. On a sink that accepts the
  write it returns normally for every integer, having written one byte; for a length
  from 0 to 127 that byte is the length itself.
\<close>

theorem write_len_no_overflow_error:
  "room fp = None \<Longrightarrow>
   \<exists>b. write_len val fp = Inr (fp\<lparr>chunks := chunks fp @ [[b]]\<rparr>) \<and>
       (0 \<le> val \<and> val < 128 \<longrightarrow> uint b = val)"
proof -
  assume working: "room fp = None"
  let ?b = "word_of_int (val AND 0x7F) :: byte"
  have "write_len val fp = Inr (fp\<lparr>chunks := chunks fp @ [[?b]]\<rparr>)"
    by (rule write_len_working [OF working])
  moreover have "0 \<le> val \<and> val < 128 \<longrightarrow> uint ?b = val"
    by (simp add: low7_self uint_small_byte)
  ultimately show ?thesis by blast
qed

theorem write_len_no_overflow_error_witness:
  "room \<lparr>chunks = [], room = None\<rparr> = None \<and>
   (\<exists>b. write_len 100 \<lparr>chunks = [], room = None\<rparr> = Inr \<lparr>chunks = [[b]], room = None\<rparr> \<and>
        uint b = 100)"
  using write_len_no_overflow_error [of "\<lparr>chunks = [], room = None\<rparr>" 100] by simp

text \<open>
  C5: for every value (non-negative or not), \<^verbatim>\<open>write_len\<close> is exactly one call of
  the sink's \<^verbatim>\<open>write\<close> with the single byte \<^verbatim>\<open>val & 0x7F\<close>: the byte is masked to 7
  bits before its bit \<^verbatim>\<open>0x80\<close> is tested, so the loop always stops after its first
  round. A failure of that one write is the failure of \<^verbatim>\<open>write_len\<close>. Read as
  a number, the byte is the value modulo 128.
\<close>

theorem write_len_one_masked_byte:
  "write_len val fp = fp_write fp [word_of_int (val AND 0x7F)] \<and>
   uint (word_of_int (val AND 0x7F) :: byte) = val mod 128"
  by (simp add: write_len_eq uint_low7)

subsection \<open>The tag codec\<close>

lemma write_id_loop_tag_encode:
  "room fp = None \<Longrightarrow>
   write_id_loop [k..<k + n] val fp =
     Inr (fp\<lparr>chunks := chunks fp @ map (\<lambda>b. [b]) (tag_encode n (drop_bit (8 * k) val))\<rparr>)"
proof (induction n arbitrary: k fp)
  case 0
  then show ?case by simp
next
  case (Suc n)
  let ?b = "drop_bit (8 * k) val AND 0xFF"
  let ?fp' = "fp\<lparr>chunks := chunks fp @ [[word_of_int ?b]]\<rparr>"
  have idx: "[k..<k + Suc n] = k # [Suc k..<Suc k + n]"
    by (simp add: upt_conv_Cons)
  have room': "room ?fp' = None" using Suc.prems by simp
  have shift: "drop_bit 8 (drop_bit (8 * k) val) = drop_bit (8 * Suc k) val"
    by (simp add: drop_bit_drop_bit add.commute)
  have step: "write_id_loop (k # [Suc k..<Suc k + n]) val fp =
      (if ?b AND 0x80 = 0 then Inr ?fp' else write_id_loop [Suc k..<Suc k + n] val ?fp')"
    using Suc.prems
    by (simp add: pack_and_FF RecordWriter_write_def fp_write_working Let_def del: upt_Suc)
  show ?case
  proof (cases "?b AND 0x80 = 0")
    case True
    then show ?thesis
      unfolding idx step by (simp add: Let_def)
  next
    case False
    then show ?thesis
      unfolding idx step using Suc.IH [OF room', of "Suc k"]
      by (simp add: Let_def shift del: upt_Suc)
  qed
qed

lemma write_id_tag_encode:
  "room fp = None \<Longrightarrow>
   write_id val fp = Inr (fp\<lparr>chunks := chunks fp @ map (\<lambda>b. [b]) (tag_encode 4 val)\<rparr>)"
  using write_id_loop_tag_encode [of fp 0 4 val] by (simp add: write_id_def)

lemma tag_encode_examples:
  "tag_encode 4 0 = [0x00]"
  "tag_encode 4 0x7F = [0x7F]"
  "tag_encode 4 0x80 = [0x80, 0x00]"
  "tag_encode 4 0xFFFFFFFF = [0xFF, 0xFF, 0xFF, 0xFF]"
  by (simp_all add: numeral_eq_Suc Let_def)

text \<open>
  C4: on a working sink, \<^verbatim>\<open>write_id\<close> writes, one byte per \<^verbatim>\<open>write\<close> call, the
  bytes of the specification's tag codec run for at most 4 steps (for every integer,
  so for every non-negative tag). So 0 is written as the byte \<^verbatim>\<open>00\<close>, \<^verbatim>\<open>0x7F\<close> as one
  byte, \<^verbatim>\<open>0x80\<close> as two bytes, the first with its top bit set, and \<^verbatim>\<open>0xFFFFFFFF\<close> as
  four bytes.
\<close>

theorem write_id_tag_codec:
  "room fp = None \<Longrightarrow>
   write_id val fp = Inr (fp\<lparr>chunks := chunks fp @ map (\<lambda>b. [b]) (tag_encode 4 val)\<rparr>) \<and>
   write_id 0 \<lparr>chunks = [], room = None\<rparr> = Inr \<lparr>chunks = [[0x00]], room = None\<rparr> \<and>
   write_id 0x7F \<lparr>chunks = [], room = None\<rparr> = Inr \<lparr>chunks = [[0x7F]], room = None\<rparr> \<and>
   write_id 0x80 \<lparr>chunks = [], room = None\<rparr> =
     Inr \<lparr>chunks = [[0x80], [0x00]], room = None\<rparr> \<and>
   write_id 0xFFFFFFFF \<lparr>chunks = [], room = None\<rparr> =
     Inr \<lparr>chunks = [[0xFF], [0xFF], [0xFF], [0xFF]], room = None\<rparr>"
  by (simp add: write_id_tag_encode tag_encode_examples)

theorem write_id_tag_codec_witness:
  "room \<lparr>chunks = [], room = None\<rparr> = None \<and>
   write_id 0x0181 \<lparr>chunks = [], room = None\<rparr> =
     Inr \<lparr>chunks = [[0x81], [0x01]], room = None\<rparr>"
  using write_id_tag_codec [of "\<lparr>chunks = [], room = None\<rparr>" "0x0181"]
  by (simp add: numeral_eq_Suc Let_def)

subsection \<open>The fixed-width writers\<close>

lemma fp_write_error: "fp_write fp data = Inl e \<Longrightarrow> e = SinkFailure"
  by (auto simp: fp_write_def split: option.splits if_splits)

lemma write_len_error: "write_len val fp = Inl e \<Longrightarrow> e = SinkFailure"
  by (simp add: write_len_eq fp_write_error)

lemma struct_pack_error: "struct_pack n val = Inl e \<Longrightarrow> e = StructError"
  by (auto simp: struct_pack_def split: option.splits if_splits)

lemma struct_pack_length: "struct_pack n val = Inr payload \<Longrightarrow> length payload = n"
  by (auto simp: struct_pack_def le_bytes_def split: option.splits if_splits)

lemma struct_pack_in_range:
  "0 \<le> v \<Longrightarrow> v < 2 ^ (8 * n) \<Longrightarrow> struct_pack n (PInt v) = Inr (le_bytes n v)"
  by (simp add: struct_pack_def)

lemma write_packed_error:
  assumes "\<And>e. pack val = Inl e \<Longrightarrow> e = StructError"
    and "write_packed pack val do_write_len fp = Inl e"
  shows "e = StructError \<or> e = SinkFailure"
  using assms
  by (auto simp: write_packed_def split: sum.splits if_splits
           dest: fp_write_error write_len_error)

lemma write_int_error:
  "write_int val do_write_len fp = Inl e \<Longrightarrow> e = StructError \<or> e = SinkFailure"
  unfolding write_int_def uint32_t_pack_def
  by (rule write_packed_error [where pack = "struct_pack 4" and val = val])
     (auto dest: struct_pack_error)

lemma write_packed_working:
  "pack val = Inr payload \<Longrightarrow> room fp = None \<Longrightarrow>
   write_packed pack val do_write_len fp =
     Inr (fp\<lparr>chunks := chunks fp @
            (if do_write_len then [[word_of_int (int (length payload) AND 0x7F)], payload]
             else [payload])\<rparr>)"
  by (simp add: write_packed_def write_len_working fp_write_working)

text \<open>
  With an integer in range and a working sink, \<^verbatim>\<open>write_byte\<close>, \<^verbatim>\<open>write_short\<close> and
  \<^verbatim>\<open>write_int\<close> write 1, 2 and 4 little-endian bytes in one call.
\<close>

lemma fixed_width_writers:
  assumes "room fp = None" and "0 \<le> v"
  shows "v < 2 ^ 8 \<Longrightarrow>
      write_byte (PInt v) False fp = Inr (fp\<lparr>chunks := chunks fp @ [le_bytes 1 v]\<rparr>)"
    and "v < 2 ^ 16 \<Longrightarrow>
      write_short (PInt v) False fp = Inr (fp\<lparr>chunks := chunks fp @ [le_bytes 2 v]\<rparr>)"
    and "v < 2 ^ 32 \<Longrightarrow>
      write_int (PInt v) False fp = Inr (fp\<lparr>chunks := chunks fp @ [le_bytes 4 v]\<rparr>)"
  using assms
  by (simp_all add: write_byte_def write_short_def write_int_def uint8_t_pack_def
        uint16_t_pack_def uint32_t_pack_def struct_pack_in_range write_packed_working)

lemma write_int_in_range:
  "0 \<le> n \<Longrightarrow> n < 2 ^ 32 \<Longrightarrow> write_int (PInt n) False fp = fp_write fp (le_bytes 4 n)"
  by (simp add: write_int_def write_packed_def uint32_t_pack_def struct_pack_def)

lemma write_double_working:
  "double_t_pack val = Inr payload \<Longrightarrow> room fp = None \<Longrightarrow>
   write_double double_t_pack val False fp = Inr (fp\<lparr>chunks := chunks fp @ [payload]\<rparr>)"
  by (simp add: write_double_def write_packed_working)

text \<open>The 4 bytes of \<^verbatim>\<open>write_int\<close> are the integer, least significant byte first.\<close>

lemma le_bytes_4:
  "le_bytes 4 n =
     [word_of_int n, word_of_int (n div 2 ^ 8), word_of_int (n div 2 ^ 16),
      word_of_int (n div 2 ^ 24)]"
  by (simp add: le_bytes_def upt_conv_Cons drop_bit_eq_div)

lemma uint_byte: "uint (word_of_int x :: byte) = x mod 256"
  by (simp add: uint_word_of_int_eq take_bit_eq_mod)

lemma base256_digits:
  fixes n a b c r0 r1 r2 :: int
  assumes "n = r0 + 256 * a" "a = r1 + 256 * b" "b = r2 + 256 * c"
  shows "r0 + r1 * 256 + r2 * 65536 + c * 16777216 = n"
  using assms by simp

lemma base256_split:
  fixes n :: int
  assumes "0 \<le> n" "n < 2 ^ 32"
  shows "n mod 256 + (n div 256) mod 256 * 256 + (n div 65536) mod 256 * 65536
        + (n div 16777216) mod 256 * 16777216 = n"
proof -
  have d2: "n div 65536 = n div 256 div 256"
    by (simp add: div_mult2_eq)
  have d3: "n div 16777216 = n div 256 div 256 div 256"
    by (simp add: div_mult2_eq)
  have "n div 16777216 < 256" using assms by simp
  moreover have "0 \<le> n div 16777216" using assms by simp
  ultimately have top: "(n div 16777216) mod 256 = n div 16777216" by simp
  have e0: "n = n mod 256 + 256 * (n div 256)" by simp
  have e1: "n div 256 = (n div 256) mod 256 + 256 * (n div 256 div 256)" by simp
  have e2: "n div 256 div 256 =
      (n div 256 div 256) mod 256 + 256 * (n div 256 div 256 div 256)"
    by simp
  show ?thesis
    unfolding top unfolding d2 d3 by (rule base256_digits [OF e0 e1 e2])
qed

lemma le_bytes_4_value:
  assumes "0 \<le> n" "n < 2 ^ 32"
  shows "(\<Sum>i<4. uint (le_bytes 4 n ! i) * 256 ^ i) = n"
proof -
  have sum4: "\<And>f :: nat \<Rightarrow> int. (\<Sum>i<4. f i) = f 0 + f 1 + f 2 + f 3"
    by (simp add: numeral_eq_Suc lessThan_Suc)
  have s: "(\<Sum>i<4. uint (le_bytes 4 n ! i) * 256 ^ i) =
      n mod 256 + (n div 256) mod 256 * 256 + (n div 65536) mod 256 * 65536
        + (n div 16777216) mod 256 * 16777216"
    unfolding sum4 le_bytes_4 by (simp add: uint_byte numeral_2_eq_2 numeral_3_eq_3)
  show ?thesis unfolding s using assms by (rule base256_split)
qed

text \<open>
  C3 says that no primitive writer has an error of its own and that \<^verbatim>\<open>write_float\<close>
  completes for every float on a working sink. The module never imports \<^verbatim>\<open>struct\<close>,
  so the first statement of \<^verbatim>\<open>write_float\<close> raises \<^verbatim>\<open>NameError\<close>: for every value,
  every packer, with or without a length prefix, on every sink, and before anything
  is written.
\<close>

theorem write_float_raises_NameError:
  "write_float float_pack val do_write_len fp = Inl NameError"
  by (simp add: write_float_def load_global_def module_globals_def builtin_names_def)

subsection \<open>The text codec\<close>

lemma write_string_str:
  "write_string (PStr s) fp =
     (case write_int (PInt (int (length (lstrip [0xFF, 0xFE] (utf_16_encode s))) div 2))
             False fp of
        Inl e \<Rightarrow> Inl e
      | Inr fp' \<Rightarrow> fp_write fp' (lstrip [0xFF, 0xFE] (utf_16_encode s)))"
  by (auto simp: write_string_def Let_def split: sum.splits error.splits
           dest: write_int_error fp_write_error)

lemma write_string_str_error:
  "write_string (PStr s) fp = Inl e \<Longrightarrow> e = StructError \<or> e = SinkFailure"
  by (auto simp: write_string_str split: sum.splits dest: write_int_error fp_write_error)

lemma write_obj_str_not_int:
  "\<not> isinstance_int obj \<Longrightarrow> write_obj_str obj fp = write_string (PStr (str obj)) fp"
  by (auto simp: write_obj_str_def Let_def split: sum.splits error.splits
           dest: write_string_str_error)

lemma write_string_int: "write_string (PInt n) fp = write_int (PInt n) False fp"
  by (simp add: write_string_def)

lemma write_obj_str_int: "write_obj_str (PInt n) fp = write_int (PInt n) False fp"
  by (simp add: write_obj_str_def)

lemma length_encode_cp: "length (encode_cp c) = 2 \<or> length (encode_cp c) = 4"
  by (simp add: encode_cp_def utf16_unit_def)

lemma even_length_utf16le: "even (length (utf16le s))"
proof (induction s)
  case Nil
  then show ?case by (simp add: utf16le_def)
next
  case (Cons c s)
  have "even (length (encode_cp c))"
    using length_encode_cp [of c] by auto
  with Cons show ?case by (simp add: utf16le_def)
qed

lemma lstrip_BOM: "lstrip [0xFF, 0xFE] (utf_16_encode s) = lstrip [0xFF, 0xFE] (utf16le s)"
  by (simp add: lstrip_def utf_16_encode_def BOM_def)

lemma lstrip_keeps: "data = [] \<or> hd data \<notin> set chars \<Longrightarrow> lstrip chars data = data"
  by (cases data) (auto simp: lstrip_def)

text \<open>
  Where the text does not begin with a byte \<^verbatim>\<open>ff\<close> or \<^verbatim>\<open>fe\<close> once encoded,
  \<^verbatim>\<open>write_string\<close> frames it as the specification says: the unit count in 4
  little-endian bytes, then the UTF-16LE bytes without the mark, an even number of
  them.
\<close>

lemma write_string_well_framed:
  assumes "room fp = None"
    and "utf16le s = [] \<or> hd (utf16le s) \<notin> {0xFF, 0xFE}"
    and "length (utf16le s) div 2 < 2 ^ 32"
  shows "write_string (PStr s) fp =
     Inr (fp\<lparr>chunks := chunks fp @
           [le_bytes 4 (int (length (utf16le s) div 2)), utf16le s]\<rparr>)"
proof -
  have strip: "lstrip [0xFF, 0xFE] (utf_16_encode s) = utf16le s"
    using assms(2) by (simp add: lstrip_BOM lstrip_keeps)
  have size: "int (length (utf16le s)) div 2 = int (length (utf16le s) div 2)"
    by (simp add: zdiv_int)
  have lo: "0 \<le> int (length (utf16le s) div 2)" by simp
  have hi: "int (length (utf16le s) div 2) < 2 ^ 32"
    using assms(3) by (metis of_nat_less_iff of_nat_numeral of_nat_power)
  show ?thesis
    unfolding write_string_str strip size
    using fixed_width_writers(3) [OF assms(1) lo hi]
    by (simp add: fp_write_working assms(1))
qed

text \<open>
  C2 says that the payload always has an even number of bytes and that exactly the
  byte-order mark is stripped. \<^verbatim>\<open>lstrip(b'\xff\xfe')\<close> strips every leading byte
  \<^verbatim>\<open>ff\<close> or \<^verbatim>\<open>fe\<close>, not the two-byte prefix: for the one-character string
  \<^verbatim>\<open>U+00FF\<close>, encoded as \<^verbatim>\<open>ff fe ff 00\<close>, it also takes the low byte of the
  character. The call writes the count 0 and a payload of one byte.
\<close>

theorem write_string_odd_payload:
  "write_string (PStr [0xFF]) \<lparr>chunks = [], room = None\<rparr> =
     Inr \<lparr>chunks = [[0x00, 0x00, 0x00, 0x00], [0x00]], room = None\<rparr>"
  by (simp add: write_string_def utf_16_encode_def utf16le_def BOM_def encode_cp_def
        utf16_unit_def lstrip_def write_int_def write_packed_def
        uint32_t_pack_def struct_pack_def le_bytes_def fp_write_def upt_conv_Cons Let_def)

text \<open>
  C6 says that the count is followed by the raw UTF-16LE bytes of the string. For
  the string \<^verbatim>\<open>U+00FE\<close>, \<^verbatim>\<open>a\<close>, whose UTF-16LE bytes are \<^verbatim>\<open>fe 00 61 00\<close> (2
  units), the call writes the count 1 and the three bytes \<^verbatim>\<open>00 61 00\<close>: the same
  \<^verbatim>\<open>lstrip\<close> has taken the first byte of the text. The count is written by
  \<^verbatim>\<open>write_int\<close>, in 4 bytes, as the claim says.
\<close>

theorem write_string_payload_not_utf16le:
  "write_string (PStr [0xFE, 0x61]) \<lparr>chunks = [], room = None\<rparr> =
     Inr \<lparr>chunks = [[0x01, 0x00, 0x00, 0x00], [0x00, 0x61, 0x00]], room = None\<rparr> \<and>
   utf16le [0xFE, 0x61] = [0xFE, 0x00, 0x61, 0x00]"
  by (simp add: write_string_def utf_16_encode_def utf16le_def BOM_def encode_cp_def
        utf16_unit_def lstrip_def write_int_def write_packed_def
        uint32_t_pack_def struct_pack_def le_bytes_def fp_write_def upt_conv_Cons Let_def)

text \<open>
  C7: an integer that is a shared-string index (so within 32 bits unsigned) passed to
  \<^verbatim>\<open>write_string\<close> or to \<^verbatim>\<open>write_obj_str\<close> results in exactly one call of the
  sink's \<^verbatim>\<open>write\<close>, with the 4 little-endian bytes of the integer: no count is
  written before it and no characters after it.
\<close>

theorem shared_string_index_written_alone:
  "0 \<le> n \<Longrightarrow> n < 2 ^ 32 \<Longrightarrow>
   write_string (PInt n) fp = fp_write fp (le_bytes 4 n) \<and>
   write_obj_str (PInt n) fp = fp_write fp (le_bytes 4 n) \<and>
   length (le_bytes 4 n) = 4 \<and>
   (\<Sum>i<4. uint (le_bytes 4 n ! i) * 256 ^ i) = n"
proof -
  assume range: "0 \<le> n" "n < 2 ^ 32"
  have "write_string (PInt n) fp = fp_write fp (le_bytes 4 n)"
    using range by (simp add: write_string_int write_int_in_range)
  moreover have "write_obj_str (PInt n) fp = fp_write fp (le_bytes 4 n)"
    using range by (simp add: write_obj_str_int write_int_in_range)
  moreover have "length (le_bytes 4 n) = 4"
    by (simp add: le_bytes_def)
  moreover have "(\<Sum>i<4. uint (le_bytes 4 n ! i) * 256 ^ i) = n"
    using range by (rule le_bytes_4_value)
  ultimately show ?thesis by blast
qed

theorem shared_string_index_written_alone_witness:
  "(0::int) \<le> 258 \<and> (258::int) < 2 ^ 32 \<and>
   write_string (PInt 258) \<lparr>chunks = [], room = None\<rparr> =
     Inr \<lparr>chunks = [[0x02, 0x01, 0x00, 0x00]], room = None\<rparr> \<and>
   write_obj_str (PInt 258) \<lparr>chunks = [], room = None\<rparr> =
     Inr \<lparr>chunks = [[0x02, 0x01, 0x00, 0x00]], room = None\<rparr>"
proof -
  have lo: "(0::int) \<le> 258" and hi: "(258::int) < 2 ^ 32" by simp_all
  have bytes: "le_bytes 4 258 = [0x02, 0x01, 0x00, 0x00]"
    by (simp add: le_bytes_4)
  have sink: "fp_write \<lparr>chunks = [], room = None\<rparr> [0x02, 0x01, 0x00, 0x00] =
      Inr \<lparr>chunks = [[0x02, 0x01, 0x00, 0x00]], room = None\<rparr>"
    by (simp add: fp_write_def)
  from shared_string_index_written_alone [OF lo hi, of "\<lparr>chunks = [], room = None\<rparr>"]
  have "write_string (PInt 258) \<lparr>chunks = [], room = None\<rparr> =
          fp_write \<lparr>chunks = [], room = None\<rparr> (le_bytes 4 258)"
    and "write_obj_str (PInt 258) \<lparr>chunks = [], room = None\<rparr> =
          fp_write \<lparr>chunks = [], room = None\<rparr> (le_bytes 4 258)"
    by blast+
  then show ?thesis
    unfolding bytes sink using lo hi by blast
qed

subsection \<open>\<^verbatim>\<open>write_bytes\<close>\<close>

text \<open>
  C10: for every \<^verbatim>\<open>bytes\<close> object and a working sink, \<^verbatim>\<open>write_bytes\<close> first does
  what \<^verbatim>\<open>write_len\<close> does for the byte count (one byte) and then writes the bytes
  in one call; for the empty object that second call is not made, and the sink has
  received the length byte \<^verbatim>\<open>00\<close> only.
\<close>

theorem write_bytes_len_then_raw:
  "room fp = None \<Longrightarrow>
   write_len (int (length bs)) fp =
     Inr (fp\<lparr>chunks := chunks fp @ [[word_of_int (int (length bs) AND 0x7F)]]\<rparr>) \<and>
   write_bytes (PBytes bs) fp =
     Inr (fp\<lparr>chunks := chunks fp @
            (if bs = [] then [[0x00]]
             else [[word_of_int (int (length bs) AND 0x7F)], bs])\<rparr>)"
  by (simp add: write_bytes_def write_len_working RecordWriter_write_def fp_write_working)

theorem write_bytes_len_then_raw_witness:
  "room \<lparr>chunks = [], room = None\<rparr> = None \<and>
   write_bytes (PBytes []) \<lparr>chunks = [], room = None\<rparr> =
     Inr \<lparr>chunks = [[0x00]], room = None\<rparr> \<and>
   write_bytes (PBytes [7, 8, 9]) \<lparr>chunks = [], room = None\<rparr> =
     Inr \<lparr>chunks = [[0x03], [7, 8, 9]], room = None\<rparr>"
  using write_bytes_len_then_raw [of "\<lparr>chunks = [], room = None\<rparr>" "[]"]
        write_bytes_len_then_raw [of "\<lparr>chunks = [], room = None\<rparr>" "[7, 8, 9]"]
  by simp

subsection \<open>The dispatch table\<close>

lemma getitem_unhashable: "hash_eq key = None \<Longrightarrow> getitem h key = Inl TypeError"
  by simp

lemma getitem_hit: "hash_eq key = Some i \<Longrightarrow> h i = Some v \<Longrightarrow> getitem h key = Inr (v, h)"
  by simp

lemma getitem_fallback:
  "hash_eq key = Some i \<Longrightarrow> h i = None \<Longrightarrow> \<not> key_is_instance key \<Longrightarrow>
   getitem h key = Inr ((STRING, Write_obj_str), h(i \<mapsto> (STRING, Write_obj_str)))"
  by (simp add: key_is_instance_def setitem_def Let_def)

lemma base_types_not_instances:
  "\<not> key_is_instance int_type" "\<not> key_is_instance float_type"
  "\<not> key_is_instance bool_type" "\<not> key_is_instance str_type"
  by (simp_all add: key_is_instance_def int_type_def float_type_def bool_type_def
        str_type_def type_object_def)

lemma base_types_hashable:
  "hash_eq int_type = Some (Class ''int'')" "hash_eq float_type = Some (Class ''float'')"
  "hash_eq bool_type = Some (Class ''bool'')" "hash_eq str_type = Some (Class ''str'')"
  by (simp_all add: int_type_def float_type_def bool_type_def str_type_def type_object_def)

text \<open>A hashable key that is no instance of the four: a hit or the fallback.\<close>

lemma getitem_not_instance:
  assumes "hash_eq t = Some j" and "\<not> key_is_instance t"
  shows "getitem h t =
     (case h j of
        Some v \<Rightarrow> Inr (v, h)
      | None \<Rightarrow> Inr ((STRING, Write_obj_str), h(j \<mapsto> (STRING, Write_obj_str))))"
proof (cases "h j")
  case None
  with assms show ?thesis by (simp add: getitem_fallback del: getitem.simps)
next
  case (Some v)
  with assms show ?thesis by (simp add: getitem_hit del: getitem.simps)
qed

lemma getitem_not_instance_returns:
  assumes "hash_eq t = Some j" and "\<not> key_is_instance t"
  shows "\<exists>v h'. getitem h t = Inr (v, h') \<and> (v \<in> ran h \<or> v = (STRING, Write_obj_str)) \<and>
           (\<forall>k w. h k = Some w \<longrightarrow> h' k = Some w)"
proof (cases "h j")
  case None
  then have "\<forall>k w. h k = Some w \<longrightarrow> (h(j \<mapsto> (STRING, Write_obj_str))) k = Some w"
    by auto
  with None assms show ?thesis
    by (simp add: getitem_not_instance del: getitem.simps)
next
  case (Some v)
  then have "v \<in> ran h" by (rule ranI)
  with Some assms show ?thesis
    by (simp add: getitem_not_instance del: getitem.simps)
qed

text \<open>
  A miss on an instance of a base category is the lookup of that category's type
  object, stored under the key.
\<close>

lemma missing_instance:
  assumes "hash_eq key = Some i" and "key_is_instance key"
  shows "\<exists>t j. hash_eq t = Some j \<and> \<not> key_is_instance t \<and>
     missing h key =
       (case getitem h t of Inl e \<Rightarrow> Inl e | Inr (v, h') \<Rightarrow> Inr (v, h'(i \<mapsto> v)))"
proof -
  consider (i) "is_int key"
    | (f) "\<not> is_int key" "is_float key"
    | (b) "\<not> is_int key" "\<not> is_float key" "is_bool key"
    | (s) "\<not> is_int key" "\<not> is_float key" "\<not> is_bool key" "is_str key"
    using assms(2) by (auto simp: key_is_instance_def)
  then show ?thesis
  proof cases
    case i
    then have "missing h key =
        (case getitem h int_type of Inl e \<Rightarrow> Inl e | Inr (v, h') \<Rightarrow> Inr (v, h'(i \<mapsto> v)))"
      using assms(1) by (simp add: setitem_def split: sum.splits del: getitem.simps)
    with base_types_hashable(1) base_types_not_instances(1) show ?thesis by blast
  next
    case f
    then have "missing h key =
        (case getitem h float_type of Inl e \<Rightarrow> Inl e | Inr (v, h') \<Rightarrow> Inr (v, h'(i \<mapsto> v)))"
      using assms(1) by (simp add: setitem_def split: sum.splits del: getitem.simps)
    with base_types_hashable(2) base_types_not_instances(2) show ?thesis by blast
  next
    case b
    then have "missing h key =
        (case getitem h bool_type of Inl e \<Rightarrow> Inl e | Inr (v, h') \<Rightarrow> Inr (v, h'(i \<mapsto> v)))"
      using assms(1) by (simp add: setitem_def split: sum.splits del: getitem.simps)
    with base_types_hashable(3) base_types_not_instances(3) show ?thesis by blast
  next
    case s
    then have "missing h key =
        (case getitem h str_type of Inl e \<Rightarrow> Inl e | Inr (v, h') \<Rightarrow> Inr (v, h'(i \<mapsto> v)))"
      using assms(1) by (simp add: setitem_def split: sum.splits del: getitem.simps)
    with base_types_hashable(4) base_types_not_instances(4) show ?thesis by blast
  qed
qed

text \<open>
  Every lookup of a hashable key returns: an entry of the table or the generic one,
  stored under the key's identity in a table that keeps all it had.
\<close>

lemma getitem_hashable:
  assumes "hash_eq key = Some i"
  shows "\<exists>v h'. getitem h key = Inr (v, h') \<and> h' i = Some v \<and>
           (v \<in> ran h \<or> v = (STRING, Write_obj_str)) \<and>
           (\<forall>k w. h k = Some w \<longrightarrow> h' k = Some w)"
proof (cases "h i")
  case (Some v)
  then have "v \<in> ran h" by (rule ranI)
  with Some assms show ?thesis by (simp add: getitem_hit del: getitem.simps)
next
  case None
  show ?thesis
  proof (cases "key_is_instance key")
    case False
    have "\<forall>k w. h k = Some w \<longrightarrow> (h(i \<mapsto> (STRING, Write_obj_str))) k = Some w"
      using None by auto
    with None False assms show ?thesis
      by (simp add: getitem_fallback del: getitem.simps)
  next
    case True
    have m: "getitem h key = missing h key"
      using assms None by (simp del: missing.simps)
    from missing_instance [OF assms True, of h] obtain t j where
      t: "hash_eq t = Some j" "\<not> key_is_instance t" and
      g: "missing h key =
            (case getitem h t of Inl e \<Rightarrow> Inl e | Inr (v, h') \<Rightarrow> Inr (v, h'(i \<mapsto> v)))"
      by blast
    from getitem_not_instance_returns [OF t, of h] obtain v h' where
      r: "getitem h t = Inr (v, h')" "v \<in> ran h \<or> v = (STRING, Write_obj_str)"
         "\<forall>k w. h k = Some w \<longrightarrow> h' k = Some w"
      by blast
    have "getitem h key = Inr (v, h'(i \<mapsto> v))"
      unfolding m g r(1) by simp
    moreover have "\<forall>k w. h k = Some w \<longrightarrow> (h'(i \<mapsto> v)) k = Some w"
      using r(3) None by auto
    ultimately show ?thesis using r(2) by simp
  qed
qed

lemma getitem_stores:
  assumes "getitem h key = Inr (e, h1)"
  shows "\<exists>i. hash_eq key = Some i \<and> h1 i = Some e"
proof (cases "hash_eq key")
  case None
  with assms show ?thesis by simp
next
  case (Some i)
  from getitem_hashable [OF Some, of h] assms have "h1 i = Some e" by auto
  with Some show ?thesis by simp
qed

lemma getitem_preserves:
  assumes "h k = Some w"
  shows "(case getitem h key of Inl e \<Rightarrow> h | Inr (v, h') \<Rightarrow> h') k = Some w"
proof (cases "hash_eq key")
  case None
  with assms show ?thesis by simp
next
  case (Some i)
  from getitem_hashable [OF Some, of h] obtain v h' where
    g: "getitem h key = Inr (v, h')" and p: "\<forall>k w. h k = Some w \<longrightarrow> h' k = Some w"
    by blast
  from p assms have "h' k = Some w" by blast
  then show ?thesis unfolding g by simp
qed

lemma resolve_all_preserves: "h k = Some w \<Longrightarrow> resolve_all h ks k = Some w"
proof (induction ks arbitrary: h)
  case Nil
  then show ?case by simp
next
  case (Cons a ks)
  have "(case getitem h a of Inl e \<Rightarrow> h | Inr (v, h') \<Rightarrow> h') k = Some w"
    using Cons.prems by (rule getitem_preserves)
  then have "resolve_all (case getitem h a of Inl e \<Rightarrow> h | Inr (v, h') \<Rightarrow> h') ks k = Some w"
    by (rule Cons.IH)
  then show ?case by (simp del: getitem.simps)
qed

text \<open>
  C8: whatever a first lookup of a key returns is stored under that key; a second
  lookup on the resulting table returns the same entry and leaves the table as it is
  (a hit: \<^verbatim>\<open>__missing__\<close> is not called again); and after any further lookups of any
  keys, the key still resolves to that entry, tag and encoder.
\<close>

theorem resolution_is_stable:
  "getitem h key = Inr (e, h1) \<Longrightarrow>
   (\<exists>i. hash_eq key = Some i \<and> h1 i = Some e) \<and>
   getitem h1 key = Inr (e, h1) \<and>
   getitem (resolve_all h1 ks) key = Inr (e, resolve_all h1 ks)"
proof -
  assume g: "getitem h key = Inr (e, h1)"
  from getitem_stores [OF g] obtain i where i: "hash_eq key = Some i" "h1 i = Some e"
    by blast
  from i(2) have "resolve_all h1 ks i = Some e"
    by (rule resolve_all_preserves)
  with i show ?thesis by (simp add: getitem_hit del: getitem.simps)
qed

theorem resolution_is_stable_witness:
  "getitem (SemiflexibleHandlers True) (int_inst 5) =
     Inr ((FLOAT, Write_double),
          (SemiflexibleHandlers True)(Number 5 \<mapsto> (FLOAT, Write_double))) \<and>
   hash_eq (int_inst 5) = Some (Number 5) \<and>
   ((SemiflexibleHandlers True)(Number 5 \<mapsto> (FLOAT, Write_double))) (Number 5) =
     Some (FLOAT, Write_double) \<and>
   map_sum id fst
     (getitem ((SemiflexibleHandlers True)(Number 5 \<mapsto> (FLOAT, Write_double)))
        (int_inst 5)) = Inr (FLOAT, Write_double) \<and>
   map_sum id fst
     (getitem
        (resolve_all ((SemiflexibleHandlers True)(Number 5 \<mapsto> (FLOAT, Write_double)))
           [type_object ''Decimal'', unhashable_object, str_inst [104, 105], int_inst 5])
        (int_inst 5)) = Inr (FLOAT, Write_double)"
proof -
  have g: "getitem (SemiflexibleHandlers True) (int_inst 5) =
     Inr ((FLOAT, Write_double),
          (SemiflexibleHandlers True)(Number 5 \<mapsto> (FLOAT, Write_double)))"
    by (simp add: SemiflexibleHandlers_def initial_handlers_def numpy_handlers_def
          int_inst_def int_type_def type_object_def setitem_def)
  have k: "hash_eq (int_inst 5) = Some (Number 5)"
    by (simp add: int_inst_def)
  show ?thesis
    using g k resolution_is_stable [OF g,
        of "[type_object ''Decimal'', unhashable_object, str_inst [104, 105], int_inst 5]"]
    by (simp del: getitem.simps resolve_all.simps)
qed

text \<open>A key that is hashed and compared as a resolved key finds the cached entry.\<close>

lemma equal_keys_share_the_entry:
  assumes "getitem h key = Inr (e, h1)" and "hash_eq key' = hash_eq key"
  shows "getitem h1 key' = Inr (e, h1)"
proof -
  from getitem_stores [OF assms(1)] obtain i where "hash_eq key = Some i" "h1 i = Some e"
    by blast
  with assms(2) show ?thesis by (simp add: getitem_hit del: getitem.simps)
qed

text \<open>
  On the initial table, an instance of \<^verbatim>\<open>bool\<close> resolves through the first test,
  \<^verbatim>\<open>isinstance(key, int)\<close>, to the entry of \<^verbatim>\<open>int\<close>; a float and a text to those
  of \<^verbatim>\<open>float\<close> and \<^verbatim>\<open>str\<close>.
\<close>

lemma instance_keys_on_initial_table:
  "map_sum id fst (getitem (SemiflexibleHandlers False) (bool_inst True)) =
     Inr (FLOAT, Write_double)"
  "map_sum id fst (getitem (SemiflexibleHandlers False) (float_inst (5 / 2))) =
     Inr (FLOAT, Write_double)"
  "map_sum id fst (getitem (SemiflexibleHandlers False) (str_inst [104, 105])) =
     Inr (STRING, Write_string)"
  by (simp_all add: SemiflexibleHandlers_def initial_handlers_def bool_inst_def
        float_inst_def str_inst_def int_type_def float_type_def str_type_def
        type_object_def setitem_def)

text \<open>
  C9, as the specification states it: a lookup raises no exception, for every key.
  A key that cannot be hashed (a list, a dict, a set) makes the lookup raise
  \<^verbatim>\<open>TypeError\<close> before \<^verbatim>\<open>__missing__\<close> is called, with or without numpy.
\<close>

theorem unhashable_key_raises_counterexample:
  "getitem (SemiflexibleHandlers True) unhashable_object = Inl TypeError \<and>
   getitem (SemiflexibleHandlers False) unhashable_object = Inl TypeError"
  by (simp add: unhashable_object_def)

text \<open>
  C9, amended: for every hashable key the lookup returns (the recursion of
  \<^verbatim>\<open>__getitem__\<close> through \<^verbatim>\<open>__missing__\<close> ends and no step raises), with an entry
  that is in the table or is the generic \<^verbatim>\<open>(biff12.STRING, RecordWriter.write_obj_str)\<close>.
  A hashable key that equals no key of the table and is not an instance of \<^verbatim>\<open>int\<close>,
  \<^verbatim>\<open>float\<close>, \<^verbatim>\<open>bool\<close> or \<^verbatim>\<open>str\<close> gets the generic entry, stored under the key; and
  its encoder writes, for every object that is not an \<^verbatim>\<open>int\<close>, the text
  \<^verbatim>\<open>str(obj)\<close> through \<^verbatim>\<open>write_string\<close>. The lookup of a key that cannot be
  hashed raises \<^verbatim>\<open>TypeError\<close>.
\<close>

theorem hashable_key_reaches_an_entry:
  "hash_eq key = Some i \<Longrightarrow> hash_eq bad = None \<Longrightarrow>
   (\<exists>e h1. getitem h key = Inr (e, h1) \<and> (e \<in> ran h \<or> e = (STRING, Write_obj_str))) \<and>
   (h i = None \<and> \<not> key_is_instance key \<longrightarrow>
      getitem h key =
        Inr ((STRING, Write_obj_str), h(i \<mapsto> (STRING, Write_obj_str)))) \<and>
   (\<not> isinstance_int obj \<longrightarrow> write_obj_str obj fp = write_string (PStr (str obj)) fp) \<and>
   getitem h bad = Inl TypeError"
proof -
  assume k: "hash_eq key = Some i" and u: "hash_eq bad = None"
  have "getitem h bad = Inl TypeError"
    using u by (rule getitem_unhashable)
  moreover
  from getitem_hashable [OF k, of h]
  have "\<exists>e h1. getitem h key = Inr (e, h1) \<and> (e \<in> ran h \<or> e = (STRING, Write_obj_str))"
    by blast
  moreover have "h i = None \<and> \<not> key_is_instance key \<longrightarrow>
      getitem h key = Inr ((STRING, Write_obj_str), h(i \<mapsto> (STRING, Write_obj_str)))"
    using k by (simp add: getitem_fallback del: getitem.simps)
  moreover have "\<not> isinstance_int obj \<longrightarrow>
      write_obj_str obj fp = write_string (PStr (str obj)) fp"
    by (simp add: write_obj_str_not_int)
  ultimately show ?thesis by blast
qed

theorem hashable_key_reaches_an_entry_witness:
  "hash_eq (type_object ''Decimal'') = Some (Class ''Decimal'') \<and>
   SemiflexibleHandlers True (Class ''Decimal'') = None \<and>
   \<not> key_is_instance (type_object ''Decimal'') \<and>
   \<not> isinstance_int (PObj [51, 46, 53]) \<and>
   getitem (SemiflexibleHandlers True) (type_object ''Decimal'') =
     Inr ((STRING, Write_obj_str),
          (SemiflexibleHandlers True)(Class ''Decimal'' \<mapsto> (STRING, Write_obj_str))) \<and>
   write_obj_str (PObj [51, 46, 53]) \<lparr>chunks = [], room = None\<rparr> =
     Inr \<lparr>chunks = [[0x03, 0x00, 0x00, 0x00], [51, 0, 46, 0, 53, 0]], room = None\<rparr> \<and>
   hash_eq unhashable_object = None \<and>
   getitem (SemiflexibleHandlers True) unhashable_object = Inl TypeError"
proof -
  have a: "hash_eq (type_object ''Decimal'') = Some (Class ''Decimal'')"
    by (simp add: type_object_def)
  have u: "hash_eq unhashable_object = None"
    by (simp add: unhashable_object_def)
  have b: "SemiflexibleHandlers True (Class ''Decimal'') = None"
    by (simp add: SemiflexibleHandlers_def initial_handlers_def numpy_handlers_def)
  have c: "\<not> key_is_instance (type_object ''Decimal'')"
    by (simp add: key_is_instance_def type_object_def)
  have d: "\<not> isinstance_int (PObj [51, 46, 53])" by simp
  have w: "write_string (PStr [51, 46, 53]) \<lparr>chunks = [], room = None\<rparr> =
     Inr \<lparr>chunks = [[0x03, 0x00, 0x00, 0x00], [51, 0, 46, 0, 53, 0]], room = None\<rparr>"
    by (simp add: write_string_def utf_16_encode_def utf16le_def BOM_def encode_cp_def
        utf16_unit_def lstrip_def write_int_def write_packed_def
        uint32_t_pack_def struct_pack_def le_bytes_def fp_write_def upt_conv_Cons Let_def)
  show ?thesis
    using a b c d w u
      hashable_key_reaches_an_entry [OF a u, of "SemiflexibleHandlers True"
        "PObj [51, 46, 53]" "\<lparr>chunks = [], room = None\<rparr>"]
    by (simp del: getitem.simps)
qed

end
